theory Spec2Isabelle
  imports Main
begin

section \<open>The signalling gateway of src/src/webrtc.gateway.ts\<close>

text \<open>
  The gateway class \<^verbatim>\<open>WebRtcGateway\<close> keeps five private maps and reacts to the
  transport's connection events and to the messages of connected sockets. Every
  handler is embedded as a function from the gateway's state to the new state and
  the list of messages it emits, in the order of the source. Socket ids, room ids,
  display names and origin addresses are JavaScript strings; \<^verbatim>\<open>Date.now()\<close> is an
  integer number of milliseconds handed to the handler by its caller. Calls of the
  logger and of \<^verbatim>\<open>console\<close> write no state and emit nothing, and are left out.
\<close>

subsection \<open>Data\<close>

record UserInfo =
  roomId :: string
  userName :: string
  joinedAt :: int

text \<open>The payloads of the events the gateway emits on join, admission and departure.\<close>

datatype event =
    WaitingForApproval
  | JoinRequest string string
  | ExistingUsers "(string \<times> string) list"
  | UserJoined string string
  | JoinApproved
  | JoinRejected
  | UserLeft string "string option"
  | HostAssigned string

text \<open>
  The three ways the source emits: \<^verbatim>\<open>socket.emit(e)\<close> on the socket with the given id,
  \<^verbatim>\<open>this.server.to(id).emit(e)\<close>, and \<^verbatim>\<open>client.to(roomId).emit(e)\<close> (sender, room).
\<close>

datatype emission =
    Emit string event
  | ServerTo string event
  | ClientTo string string event

text \<open>The outcome of \<^verbatim>\<open>handleConnection\<close>: \<open>Deny\<close> is the branch that calls
  \<^verbatim>\<open>client.disconnect()\<close>.\<close>

datatype admission = Allow | Deny

text \<open>
  The first five fields are the private maps of the class. A JavaScript \<^verbatim>\<open>Set\<close> iterates
  in insertion order, so a participant set is a list without repetition. The other
  fields are the parts of the runtime the handlers read and write: the server's registry
  of connected sockets (\<^verbatim>\<open>server.sockets.sockets\<close>), the transport's broadcast groups
  (written by \<^verbatim>\<open>client.join\<close> and \<^verbatim>\<open>client.leave\<close>), and the armed timeouts of
  \<^verbatim>\<open>setTimeout\<close>, each with the room id its callback closes over; a timeout handle
  is a fresh number.
\<close>

record gateway =
  userInfo :: "string \<rightharpoonup> UserInfo"
  roomHosts :: "string \<rightharpoonup> string"
  roomParticipants :: "string \<rightharpoonup> string list"
  cleanupTimers :: "string \<rightharpoonup> nat"
  connectionAttempts :: "string \<rightharpoonup> int list"
  sockets :: "string set"
  rooms :: "string \<Rightarrow> string set"
  timers :: "nat \<rightharpoonup> string"
  nextTimer :: nat

definition init :: gateway where
  "init = \<lparr> userInfo = Map.empty, roomHosts = Map.empty, roomParticipants = Map.empty,
            cleanupTimers = Map.empty, connectionAttempts = Map.empty,
            sockets = {}, rooms = (\<lambda>r. {}), timers = Map.empty, nextTimer = 0 \<rparr>"

text \<open>The member set of a room, empty when the map has no entry for it.\<close>

definition members :: "gateway \<Rightarrow> string \<Rightarrow> string list" where
  "members g rId = (case roomParticipants g rId of None \<Rightarrow> [] | Some p \<Rightarrow> p)"

text \<open>\<^verbatim>\<open>Set.prototype.add\<close> and \<^verbatim>\<open>Set.prototype.delete\<close> on an insertion-ordered set.\<close>

definition setAdd :: "string \<Rightarrow> string list \<Rightarrow> string list" where
  "setAdd x xs = (if x \<in> set xs then xs else xs @ [x])"

definition setDelete :: "string \<Rightarrow> string list \<Rightarrow> string list" where
  "setDelete x xs = removeAll x xs"

text \<open>JavaScript truthiness of a value that is a string or \<^verbatim>\<open>undefined\<close>.\<close>

definition truthy :: "string option \<Rightarrow> bool" where
  "truthy v = (case v of None \<Rightarrow> False | Some s \<Rightarrow> s \<noteq> [])"

text \<open>\<^verbatim>\<open>participants?.values().next().value\<close>: the first inserted element, if any.\<close>

definition firstValue :: "string list option \<Rightarrow> string option" where
  "firstValue p = (case p of Some (x # _) \<Rightarrow> Some x | _ \<Rightarrow> None)"

subsection \<open>Rate limiting: handleConnection\<close>

definition handleConnection :: "gateway \<Rightarrow> int \<Rightarrow> string \<Rightarrow> gateway \<times> admission" where
  "handleConnection g now ip =
    (let attempts = (case connectionAttempts g ip of None \<Rightarrow> [] | Some a \<Rightarrow> a);
         recentAttempts = filter (\<lambda>time. now - time < 60000) attempts
     in if length recentAttempts > 50 then (g, Deny)
        else (g\<lparr>connectionAttempts := (connectionAttempts g)(ip \<mapsto> recentAttempts @ [now])\<rparr>,
              Allow))"

definition cleanupConnectionTracking :: "gateway \<Rightarrow> int \<Rightarrow> gateway" where
  "cleanupConnectionTracking g now =
    (let oneHourAgo = now - 3600000
     in g\<lparr>connectionAttempts := (\<lambda>ip.
          case connectionAttempts g ip of
            None \<Rightarrow> None
          | Some attempts \<Rightarrow>
              (let recentAttempts = filter (\<lambda>time. time > oneHourAgo) attempts
               in if length recentAttempts = 0 then None else Some recentAttempts))\<rparr>)"

subsection \<open>Joining: handleJoin, joinRoom, handleAdmit, handleReject\<close>

fun existingUsersOf :: "(string \<rightharpoonup> UserInfo) \<Rightarrow> string \<Rightarrow> string list \<Rightarrow> (string \<times> string) list" where
  "existingUsersOf ui client [] = []"
| "existingUsersOf ui client (socketId # rest) =
    (case ui socketId of
       Some userInfoData \<Rightarrow>
         (if socketId \<noteq> client
          then (socketId, userName userInfoData) # existingUsersOf ui client rest
          else existingUsersOf ui client rest)
     | None \<Rightarrow> existingUsersOf ui client rest)"

definition joinRoom :: "gateway \<Rightarrow> string \<Rightarrow> string \<Rightarrow> string \<Rightarrow> gateway \<times> emission list" where
  "joinRoom g client rId uName =
    (let participants = (case roomParticipants g rId of None \<Rightarrow> [] | Some p \<Rightarrow> p);
         existingUsers = existingUsersOf (userInfo g) client participants;
         g1 = g\<lparr>rooms := (rooms g)(rId := insert client (rooms g rId))\<rparr>;
         g2 = g1\<lparr>roomParticipants := (roomParticipants g1)(rId \<mapsto> setAdd client participants)\<rparr>
     in (g2,
         (if length existingUsers > 0 then [Emit client (ExistingUsers existingUsers)] else [])
         @ [ClientTo client rId (UserJoined client uName)]))"

definition handleJoin :: "gateway \<Rightarrow> int \<Rightarrow> string \<Rightarrow> string \<Rightarrow> string \<Rightarrow> gateway \<times> emission list" where
  "handleJoin g now rId uName client =
    (if (case userInfo g client of None \<Rightarrow> False | Some existingUser \<Rightarrow> roomId existingUser = rId)
     then (g, [])
     else
      (let g1 = g\<lparr>userInfo := (userInfo g)(client \<mapsto>
                    \<lparr>roomId = rId, userName = uName, joinedAt = now\<rparr>)\<rparr>;
           participants = roomParticipants g1 rId;
           numClients = (case participants of None \<Rightarrow> 0 | Some p \<Rightarrow> length p)
       in if numClients = 0
          then joinRoom (g1\<lparr>roomHosts := (roomHosts g1)(rId \<mapsto> client)\<rparr>) client rId uName
          else
           (let hostId = roomHosts g1 rId;
                targetHostId = (if truthy hostId then hostId else firstValue participants)
            in case targetHostId of
                 Some t \<Rightarrow>
                   (if t \<noteq> []
                    then (g1, [Emit client WaitingForApproval,
                               ServerTo t (JoinRequest client uName)])
                    else joinRoom g1 client rId uName)
               | None \<Rightarrow> joinRoom g1 client rId uName)))"

definition handleAdmit :: "gateway \<Rightarrow> string \<Rightarrow> string \<Rightarrow> string \<Rightarrow> gateway \<times> emission list" where
  "handleAdmit g userId rId client =
    (if roomHosts g rId \<noteq> Some client then (g, [])
     else if userId \<in> sockets g
     then (case userInfo g userId of
             Some info \<Rightarrow>
               (case joinRoom g userId rId (userName info) of
                  (g1, out) \<Rightarrow> (g1, out @ [Emit userId JoinApproved]))
           | None \<Rightarrow> (g, []))
     else (g, []))"

definition handleReject :: "gateway \<Rightarrow> string \<Rightarrow> string \<Rightarrow> string \<Rightarrow> gateway \<times> emission list" where
  "handleReject g userId rId client =
    (if roomHosts g rId \<noteq> Some client then (g, [])
     else if userId \<in> sockets g
     then (g\<lparr>userInfo := (userInfo g)(userId := None)\<rparr>, [Emit userId JoinRejected])
     else (g, []))"

subsection \<open>Leaving: handleUserLeave, handleLeave, handleDisconnect, scheduleRoomCleanup\<close>

text \<open>\<^verbatim>\<open>clearTimeout\<close> disarms the timeout with that handle; \<^verbatim>\<open>setTimeout\<close> arms a new
  one under a fresh handle. The delay of 30000 ms is not represented: the firing of an
  armed timeout is an input of its own (\<open>fireTimer\<close>).\<close>

definition scheduleRoomCleanup :: "gateway \<Rightarrow> string \<Rightarrow> gateway" where
  "scheduleRoomCleanup g rId =
    (let g1 = (case cleanupTimers g rId of
                 Some existingTimer \<Rightarrow> g\<lparr>timers := (timers g)(existingTimer := None)\<rparr>
               | None \<Rightarrow> g);
         timer = nextTimer g1;
         g2 = g1\<lparr>timers := (timers g1)(timer \<mapsto> rId), nextTimer := Suc timer\<rparr>
     in g2\<lparr>cleanupTimers := (cleanupTimers g2)(rId \<mapsto> timer)\<rparr>)"

text \<open>The callback handed to \<^verbatim>\<open>setTimeout\<close>.\<close>

definition cleanupCallback :: "gateway \<Rightarrow> string \<Rightarrow> gateway" where
  "cleanupCallback g rId =
    (if (case roomParticipants g rId of None \<Rightarrow> True | Some p \<Rightarrow> length p = 0)
     then g\<lparr>roomParticipants := (roomParticipants g)(rId := None),
            roomHosts := (roomHosts g)(rId := None),
            cleanupTimers := (cleanupTimers g)(rId := None)\<rparr>
     else g)"

definition fireTimer :: "gateway \<Rightarrow> nat \<Rightarrow> gateway" where
  "fireTimer g h =
    (case timers g h of
       None \<Rightarrow> g
     | Some rId \<Rightarrow> cleanupCallback (g\<lparr>timers := (timers g)(h := None)\<rparr>) rId)"

definition handleUserLeave :: "gateway \<Rightarrow> string \<Rightarrow> string \<Rightarrow> gateway \<times> emission list" where
  "handleUserLeave g client rId =
    (let userInfoData = userInfo g client;
         participants = map_option (setDelete client) (roomParticipants g rId);
         g1 = (case participants of
                 None \<Rightarrow> g
               | Some p \<Rightarrow>
                   (if length p = 0
                    then g\<lparr>roomParticipants := (roomParticipants g)(rId := None)\<rparr>
                    else g\<lparr>roomParticipants := (roomParticipants g)(rId \<mapsto> p)\<rparr>));
         g2 = g1\<lparr>rooms := (rooms g1)(rId := rooms g1 rId - {client})\<rparr>;
         left = ClientTo client rId (UserLeft client (map_option userName userInfoData));
         g3 = g2\<lparr>userInfo := (userInfo g2)(client := None)\<rparr>
     in if roomHosts g3 rId = Some client
        then (case participants of
                Some (newHostId # _) \<Rightarrow>
                  (scheduleRoomCleanup (g3\<lparr>roomHosts := (roomHosts g3)(rId \<mapsto> newHostId)\<rparr>) rId,
                   [left, ServerTo newHostId (HostAssigned rId)])
              | _ \<Rightarrow>
                  (scheduleRoomCleanup (g3\<lparr>roomHosts := (roomHosts g3)(rId := None)\<rparr>) rId,
                   [left]))
        else (scheduleRoomCleanup g3 rId, [left]))"

definition handleLeave :: "gateway \<Rightarrow> string \<Rightarrow> string \<Rightarrow> gateway \<times> emission list" where
  "handleLeave g rId client = handleUserLeave g client rId"

definition handleDisconnect :: "gateway \<Rightarrow> int \<Rightarrow> string \<Rightarrow> gateway \<times> emission list" where
  "handleDisconnect g now client =
    (case (case userInfo g client of
             Some userInfoData \<Rightarrow> handleUserLeave g client (roomId userInfoData)
           | None \<Rightarrow> (g, [])) of
       (g1, out) \<Rightarrow> (cleanupConnectionTracking g1 now, out))"

subsection \<open>The transport and the gateway's inputs\<close>

text \<open>
  Modelled from the spec: the transport's two primitives of section 6, a per-session
  send and a per-room broadcast that excludes the sender (the socket library is not among
  the repository's sources). A message emitted on a socket or addressed to a session id
  goes to that session; a broadcast goes to the sessions that joined the room's group and
  have not left it, the sender excepted.
\<close>

fun receivers :: "gateway \<Rightarrow> emission \<Rightarrow> string set" where
  "receivers g (Emit s e) = {s}"
| "receivers g (ServerTo s e) = {s}"
| "receivers g (ClientTo sender rId e) = rooms g rId - {sender}"

text \<open>
  What can happen to the gateway: a socket connects from an origin, a connected socket
  sends a join-room, admit-user, reject-user or leave-room message, a socket
  disconnects, an armed timeout
  fires. On a disconnect the transport has already dropped the socket from its registry
  and from every group when it runs the handler.
\<close>

datatype input =
    Connect string string int
  | JoinRoom string string string int
  | AdmitUser string string string
  | RejectUser string string string
  | LeaveRoom string string
  | Disconnect string int
  | TimerFires nat

fun step :: "gateway \<Rightarrow> input \<Rightarrow> gateway \<times> emission list" where
  "step g (Connect client ip now) =
    (case handleConnection (g\<lparr>sockets := insert client (sockets g)\<rparr>) now ip of
       (g1, Allow) \<Rightarrow> (g1, [])
     | (g1, Deny) \<Rightarrow> (g1\<lparr>sockets := sockets g1 - {client}\<rparr>, []))"
| "step g (JoinRoom client rId uName now) = handleJoin g now rId uName client"
| "step g (AdmitUser client userId rId) = handleAdmit g userId rId client"
| "step g (RejectUser client userId rId) = handleReject g userId rId client"
| "step g (LeaveRoom client rId) = handleLeave g rId client"
| "step g (Disconnect client now) =
    handleDisconnect (g\<lparr>sockets := sockets g - {client},
                        rooms := (\<lambda>r. rooms g r - {client})\<rparr>) now client"
| "step g (TimerFires h) = (fireTimer g h, [])"

fun run :: "gateway \<Rightarrow> input list \<Rightarrow> gateway" where
  "run g [] = g"
| "run g (i # is) = run (fst (step g i)) is"

subsection \<open>Example runs\<close>

text \<open>The verdicts of a series of connection attempts from one origin, at the given times.\<close>

fun connectAll :: "gateway \<Rightarrow> string \<Rightarrow> int list \<Rightarrow> admission list" where
  "connectAll g ip [] = []"
| "connectAll g ip (now # rest) =
    (case handleConnection g now ip of (g1, a) \<Rightarrow> a # connectAll g1 ip rest)"

text \<open>Two connected sockets that have joined nothing.\<close>

definition lobby :: gateway where
  "lobby = run init [Connect ''A'' ''10.0.0.1'' 0, Connect ''B'' ''10.0.0.2'' 1]"

text \<open>\<open>A\<close> has joined the empty room \<open>R\<close> and is its host.\<close>

definition host_alone :: gateway where
  "host_alone = run lobby [JoinRoom ''A'' ''R'' ''alice'' 2]"

text \<open>\<open>A\<close> hosts \<open>R\<close>, and \<open>B\<close> hosts \<open>S\<close>.\<close>

definition two_hosts :: gateway where
  "two_hosts = run host_alone [JoinRoom ''B'' ''S'' ''bob'' 3]"

text \<open>A state in which room \<open>R\<close> has a member and no recorded host.\<close>

definition hostless :: gateway where
  "hostless = init\<lparr>roomParticipants := [''R'' \<mapsto> [''M'']],
                    userInfo := [''M'' \<mapsto> \<lparr>roomId = ''R'', userName = ''mia'', joinedAt = 0\<rparr>],
                    sockets := {''M'', ''P''}\<rparr>"

text \<open>A host with one admitted member, and the same room after the host went on to ask
  for another room \<open>S\<close> that \<open>C\<close> hosts.\<close>

definition pair_trace :: "input list" where
  "pair_trace = [Connect ''A'' ''10.0.0.1'' 0, Connect ''B'' ''10.0.0.2'' 1,
                 JoinRoom ''A'' ''R'' ''alice'' 2, JoinRoom ''B'' ''R'' ''bob'' 3,
                 AdmitUser ''A'' ''B'' ''R'']"

definition busy_host_trace :: "input list" where
  "busy_host_trace = pair_trace @ [Connect ''C'' ''10.0.0.3'' 4,
                                   JoinRoom ''C'' ''S'' ''carol'' 5, JoinRoom ''A'' ''S'' ''alice'' 6]"


text \<open>\<open>A\<close> asks for the room \<open>R\<close> that \<open>B\<close> hosts, and \<open>B\<close> leaves before answering.\<close>

definition stale_trace :: "input list" where
  "stale_trace = [Connect ''A'' ''10.0.0.1'' 0, Connect ''B'' ''10.0.0.2'' 1,
                  JoinRoom ''B'' ''R'' ''bob'' 2, JoinRoom ''A'' ''R'' ''alice'' 3,
                  LeaveRoom ''B'' ''R'']"


text \<open>A session joins two empty rooms in a row.\<close>

definition two_rooms_trace :: "input list" where
  "two_rooms_trace = [Connect ''A'' ''10.0.0.1'' 0,
                      JoinRoom ''A'' ''R'' ''alice'' 1, JoinRoom ''A'' ''S'' ''alice'' 2]"

subsection \<open>Predicates of the statements\<close>

text \<open>No session is in the member sets of two rooms.\<close>

definition singleRoom :: "gateway \<Rightarrow> bool" where
  "singleRoom g = (\<forall>c r1 r2. c \<in> set (members g r1) \<and> c \<in> set (members g r2) \<longrightarrow> r1 = r2)"

text \<open>Session \<open>c\<close> is a member of no room other than \<open>rId\<close>.\<close>

definition memberNowhereBut :: "gateway \<Rightarrow> string \<Rightarrow> string \<Rightarrow> bool" where
  "memberNowhereBut g c rId = (\<forall>r. c \<in> set (members g r) \<longrightarrow> r = rId)"

text \<open>The discipline of the clients under which member sets stay disjoint. The id of a
  session that sends join-room is not the empty string. A join-room for a room with no
  members, from a session whose presence entry does not name that room already, does not
  come from a member of another room. An admit-user that takes effect (it comes from the
  recorded host of the room and names a connected session with a presence entry) does not
  name a member of another room. A join-room for a room that has members is not
  restricted.\<close>

fun oneRoomAtATime :: "gateway \<Rightarrow> input \<Rightarrow> bool" where
  "oneRoomAtATime g (JoinRoom client rId uName now) =
    (client \<noteq> [] \<and>
     (members g rId = [] \<and> map_option roomId (userInfo g client) \<noteq> Some rId
        \<longrightarrow> memberNowhereBut g client rId))"
| "oneRoomAtATime g (AdmitUser client userId rId) =
    (roomHosts g rId = Some client \<and> userId \<in> sockets g \<and> userInfo g userId \<noteq> None
        \<longrightarrow> memberNowhereBut g userId rId)"
| "oneRoomAtATime g i = True"

fun disciplined :: "gateway \<Rightarrow> input list \<Rightarrow> bool" where
  "disciplined g [] = True"
| "disciplined g (i # is) = (oneRoomAtATime g i \<and> disciplined (fst (step g i)) is)"


text \<open>The empty string is no recorded host, no member and has no presence entry.\<close>

definition plainIds :: "gateway \<Rightarrow> bool" where
  "plainIds g = ((\<forall>r h. roomHosts g r = Some h \<longrightarrow> h \<noteq> []) \<and>
                 (\<forall>r. [] \<notin> set (members g r)) \<and> userInfo g [] = None)"

text \<open>Every room with a member has a recorded host.\<close>

definition hostedInv :: "gateway \<Rightarrow> bool" where
  "hostedInv g = (\<forall>r. members g r \<noteq> [] \<longrightarrow> roomHosts g r \<noteq> None)"



section \<open>Properties\<close>

subsection \<open>Auxiliary facts\<close>

lemma scheduleRoomCleanup_fields [simp]:
  "userInfo (scheduleRoomCleanup g r) = userInfo g"
  "roomHosts (scheduleRoomCleanup g r) = roomHosts g"
  "roomParticipants (scheduleRoomCleanup g r) = roomParticipants g"
  "connectionAttempts (scheduleRoomCleanup g r) = connectionAttempts g"
  "sockets (scheduleRoomCleanup g r) = sockets g"
  "rooms (scheduleRoomCleanup g r) = rooms g"
  by (simp_all add: scheduleRoomCleanup_def Let_def split: option.splits)

lemma scheduleRoomCleanup_armed:
  "cleanupTimers (scheduleRoomCleanup g r) r = Some (nextTimer g)"
  "n = nextTimer g \<Longrightarrow> timers (scheduleRoomCleanup g r) n = Some r"
  by (simp_all add: scheduleRoomCleanup_def Let_def split: option.splits)

lemma cleanupConnectionTracking_fields [simp]:
  "userInfo (cleanupConnectionTracking g now) = userInfo g"
  "roomHosts (cleanupConnectionTracking g now) = roomHosts g"
  "roomParticipants (cleanupConnectionTracking g now) = roomParticipants g"
  "cleanupTimers (cleanupConnectionTracking g now) = cleanupTimers g"
  "sockets (cleanupConnectionTracking g now) = sockets g"
  "rooms (cleanupConnectionTracking g now) = rooms g"
  "timers (cleanupConnectionTracking g now) = timers g"
  "nextTimer (cleanupConnectionTracking g now) = nextTimer g"
  by (simp_all add: cleanupConnectionTracking_def Let_def)

lemma lobby_fields:
  "userInfo lobby = Map.empty"
  "roomHosts lobby = Map.empty"
  "roomParticipants lobby = Map.empty"
  "cleanupTimers lobby = Map.empty"
  "sockets lobby = {''A'', ''B''}"
  "rooms lobby = (\<lambda>r. {})"
  "timers lobby = Map.empty"
  "nextTimer lobby = 0"
  by (auto simp add: lobby_def init_def handleConnection_def Let_def)

lemma host_alone_fields:
  "userInfo host_alone = [''A'' \<mapsto> \<lparr>roomId = ''R'', userName = ''alice'', joinedAt = 2\<rparr>]"
  "roomHosts host_alone = [''R'' \<mapsto> ''A'']"
  "roomParticipants host_alone = [''R'' \<mapsto> [''A'']]"
  "cleanupTimers host_alone = Map.empty"
  "sockets host_alone = {''A'', ''B''}"
  "rooms host_alone = (\<lambda>r. {})(''R'' := {''A''})"
  "timers host_alone = Map.empty"
  "nextTimer host_alone = 0"
  by (simp_all add: host_alone_def lobby_fields handleJoin_def joinRoom_def setAdd_def Let_def)

lemma two_hosts_fields:
  "userInfo two_hosts = [''A'' \<mapsto> \<lparr>roomId = ''R'', userName = ''alice'', joinedAt = 2\<rparr>,
                         ''B'' \<mapsto> \<lparr>roomId = ''S'', userName = ''bob'', joinedAt = 3\<rparr>]"
  "roomHosts two_hosts = [''R'' \<mapsto> ''A'', ''S'' \<mapsto> ''B'']"
  "roomParticipants two_hosts = [''R'' \<mapsto> [''A''], ''S'' \<mapsto> [''B'']]"
  "sockets two_hosts = {''A'', ''B''}"
  by (simp_all add: two_hosts_def host_alone_fields handleJoin_def joinRoom_def setAdd_def Let_def)

lemma run_append: "run g (xs @ ys) = run (run g xs) ys"
  by (induction xs arbitrary: g) simp_all

lemma disciplined_append:
  "disciplined g (xs @ ys) = (disciplined g xs \<and> disciplined (run g xs) ys)"
  by (induction xs arbitrary: g) simp_all

lemma handleDisconnect_state:
  "fst (handleDisconnect g now c) =
   cleanupConnectionTracking
     (case userInfo g c of Some d \<Rightarrow> fst (handleUserLeave g c (roomId d)) | None \<Rightarrow> g) now"
  by (simp add: handleDisconnect_def split: option.splits prod.splits)

paragraph \<open>Member sets after each handler\<close>

lemma cleanupConnectionTracking_members [simp]:
  "members (cleanupConnectionTracking g now) r = members g r"
  by (simp add: members_def)

lemma joinRoom_members:
  "members (fst (joinRoom g c r n)) r' =
   (if r' = r then setAdd c (members g r) else members g r')"
  by (simp add: joinRoom_def Let_def members_def)

lemma handleJoin_members:
  "set (members (fst (handleJoin g now r n c)) r') \<subseteq>
   set (members g r') \<union> (if r' = r then {c} else {})"
proof -
  let ?g1 = "g\<lparr>userInfo := (userInfo g)(c \<mapsto> \<lparr>roomId = r, userName = n, joinedAt = now\<rparr>)\<rparr>"
  let ?g2 = "?g1\<lparr>roomHosts := (roomHosts ?g1)(r \<mapsto> c)\<rparr>"
  have "fst (handleJoin g now r n c) \<in> {g, ?g1, fst (joinRoom ?g1 c r n), fst (joinRoom ?g2 c r n)}"
    by (simp add: handleJoin_def Let_def split: option.splits)
  moreover have "members ?g1 = members g" and "members ?g2 = members g"
    by (simp_all add: members_def fun_eq_iff)
  ultimately show ?thesis
    by (auto simp add: joinRoom_members setAdd_def split: if_splits)
qed

lemma handleAdmit_members:
  "set (members (fst (handleAdmit g u r c)) r') \<subseteq>
   set (members g r') \<union> (if r' = r then {u} else {})"
proof -
  have "fst (handleAdmit g u r c) = g \<or>
        (\<exists>n. fst (handleAdmit g u r c) = fst (joinRoom g u r n))"
    by (auto simp add: handleAdmit_def split_beta split: option.splits)
  then show ?thesis
    by (auto simp add: joinRoom_members setAdd_def split: if_splits)
qed

lemma handleUserLeave_members:
  "members (fst (handleUserLeave g c r)) r' =
   (if r' = r then removeAll c (members g r) else members g r')"
  by (auto simp add: handleUserLeave_def Let_def members_def setDelete_def
      split: option.splits list.splits)

lemma handleDisconnect_members:
  "set (members (fst (handleDisconnect g now c)) r') \<subseteq> set (members g r')"
  unfolding handleDisconnect_state
  by (auto simp add: handleUserLeave_members split: option.splits if_splits)

lemma fireTimer_members: "members (fireTimer g h) r' = members g r'"
  by (auto simp add: fireTimer_def cleanupCallback_def members_def split: option.splits)

paragraph \<open>Disjoint member sets\<close>

lemma singleRoom_init: "singleRoom init"
  by (simp add: singleRoom_def members_def init_def)

lemma singleRoom_shrink:
  "singleRoom g \<Longrightarrow> (\<And>r. set (members g' r) \<subseteq> set (members g r)) \<Longrightarrow> singleRoom g'"
  unfolding singleRoom_def by blast

lemma singleRoom_add:
  assumes "singleRoom g" and "memberNowhereBut g c r"
    and "\<And>r'. set (members g' r') \<subseteq> set (members g r') \<union> (if r' = r then {c} else {})"
  shows "singleRoom g'"
  unfolding singleRoom_def
proof (intro allI impI)
  fix x r1 r2
  assume a: "x \<in> set (members g' r1) \<and> x \<in> set (members g' r2)"
  show "r1 = r2"
  proof (cases "x = c")
    case True
    have "r1 = r" using a assms(2) assms(3) [of r1] True
      by (auto simp add: memberNowhereBut_def split: if_splits)
    moreover have "r2 = r" using a assms(2) assms(3) [of r2] True
      by (auto simp add: memberNowhereBut_def split: if_splits)
    ultimately show ?thesis by simp
  next
    case False
    then have "x \<in> set (members g r1)" and "x \<in> set (members g r2)"
      using a assms(3) [of r1] assms(3) [of r2] by (auto split: if_splits)
    with assms(1) show ?thesis unfolding singleRoom_def by blast
  qed
qed

paragraph \<open>The departure of a host\<close>





paragraph \<open>Rooms with members have a host\<close>

lemma hostedInv_joinRoom:
  "hostedInv g \<Longrightarrow> roomHosts g r \<noteq> None \<Longrightarrow> hostedInv (fst (joinRoom g c r n))"
  by (auto simp add: hostedInv_def joinRoom_def Let_def members_def)

lemma hostedInv_handleJoin: "hostedInv g \<Longrightarrow> hostedInv (fst (handleJoin g now r n c))"
proof -
  assume inv: "hostedInv g"
  let ?g1 = "g\<lparr>userInfo := (userInfo g)(c \<mapsto> \<lparr>roomId = r, userName = n, joinedAt = now\<rparr>)\<rparr>"
  let ?g2 = "?g1\<lparr>roomHosts := (roomHosts ?g1)(r \<mapsto> c)\<rparr>"
  have i1: "hostedInv ?g1" and i2: "hostedInv ?g2"
    using inv by (auto simp add: hostedInv_def members_def)
  have "fst (handleJoin g now r n c) = g \<or> fst (handleJoin g now r n c) = ?g1 \<or>
        fst (handleJoin g now r n c) = fst (joinRoom ?g2 c r n) \<or>
        (members g r \<noteq> [] \<and> fst (handleJoin g now r n c) = fst (joinRoom ?g1 c r n))"
    by (auto simp add: handleJoin_def Let_def members_def split: option.splits)
  moreover have "hostedInv (fst (joinRoom ?g2 c r n))"
    by (rule hostedInv_joinRoom [OF i2]) simp
  moreover have "hostedInv (fst (joinRoom ?g1 c r n))" if "members g r \<noteq> []"
    using that inv by (intro hostedInv_joinRoom [OF i1]) (simp add: hostedInv_def)
  ultimately show ?thesis
    using inv i1 by auto
qed

lemma hostedInv_handleAdmit: "hostedInv g \<Longrightarrow> hostedInv (fst (handleAdmit g u r c))"
  by (auto simp add: handleAdmit_def split_beta hostedInv_joinRoom split: option.splits)

lemma handleUserLeave_hosts:
  "roomHosts (fst (handleUserLeave g c r)) r' =
   (if r' = r \<and> roomHosts g r = Some c
    then (case removeAll c (members g r) of [] \<Rightarrow> None | n # _ \<Rightarrow> Some n)
    else roomHosts g r')"
  by (auto simp add: handleUserLeave_def Let_def members_def setDelete_def
      split: option.splits list.splits)

lemma hostedInv_handleUserLeave: "hostedInv g \<Longrightarrow> hostedInv (fst (handleUserLeave g c r))"
  unfolding hostedInv_def handleUserLeave_members handleUserLeave_hosts
proof (intro allI impI)
  fix r'
  assume inv: "\<forall>r. members g r \<noteq> [] \<longrightarrow> roomHosts g r \<noteq> None"
    and m: "(if r' = r then removeAll c (members g r) else members g r') \<noteq> []"
  have "members g r' \<noteq> []"
    using m by (auto split: if_splits)
  with inv have "roomHosts g r' \<noteq> None"
    by blast
  with m show "(if r' = r \<and> roomHosts g r = Some c
         then case removeAll c (members g r) of [] \<Rightarrow> None | n # x \<Rightarrow> Some n
         else roomHosts g r') \<noteq> None"
    by (auto split: if_splits list.splits)
qed

lemma hostedInv_fire: "hostedInv g \<Longrightarrow> hostedInv (fireTimer g h)"
  unfolding hostedInv_def fireTimer_members
  by (auto simp add: fireTimer_def cleanupCallback_def members_def split: option.splits if_splits)

lemma hostedInv_cong:
  "hostedInv g \<Longrightarrow> roomParticipants g' = roomParticipants g \<Longrightarrow> roomHosts g' = roomHosts g \<Longrightarrow>
   hostedInv g'"
  by (simp add: hostedInv_def members_def)

lemma hostedInv_step: "hostedInv g \<Longrightarrow> hostedInv (fst (step g i))"
proof (cases i)
  case (Connect c ip now)
  assume "hostedInv g"
  then show ?thesis unfolding Connect
    by (auto simp add: handleConnection_def Let_def elim!: hostedInv_cong)
next
  case (JoinRoom c r n now)
  assume "hostedInv g"
  then show ?thesis unfolding JoinRoom by (simp add: hostedInv_handleJoin)
next
  case (AdmitUser c u r)
  assume "hostedInv g"
  then show ?thesis unfolding AdmitUser by (simp add: hostedInv_handleAdmit)
next
  case (RejectUser c u r)
  assume "hostedInv g"
  then show ?thesis unfolding RejectUser
    by (auto simp add: handleReject_def elim!: hostedInv_cong)
next
  case (LeaveRoom c r)
  assume "hostedInv g"
  then show ?thesis unfolding LeaveRoom by (simp add: handleLeave_def hostedInv_handleUserLeave)
next
  case (Disconnect c now)
  assume "hostedInv g"
  then have "hostedInv (g\<lparr>sockets := sockets g - {c}, rooms := (\<lambda>r. rooms g r - {c})\<rparr>)"
    by (rule hostedInv_cong) simp_all
  then have "hostedInv (case userInfo g c of
      Some d \<Rightarrow> fst (handleUserLeave (g\<lparr>sockets := sockets g - {c}, rooms := (\<lambda>r. rooms g r - {c})\<rparr>) c (roomId d))
    | None \<Rightarrow> g\<lparr>sockets := sockets g - {c}, rooms := (\<lambda>r. rooms g r - {c})\<rparr>)"
    by (simp add: hostedInv_handleUserLeave split: option.splits)
  then show ?thesis unfolding Disconnect step.simps handleDisconnect_state
    by (rule hostedInv_cong) simp_all
next
  case (TimerFires h)
  assume "hostedInv g"
  then show ?thesis unfolding TimerFires by (simp add: hostedInv_fire)
qed

lemma hostedInv_run: "hostedInv g \<Longrightarrow> hostedInv (run g is)"
  by (induction "is" arbitrary: g) (simp_all add: hostedInv_step)

lemma members_have_host:
  "members (run init es) r \<noteq> [] \<Longrightarrow> roomHosts (run init es) r \<noteq> None"
  using hostedInv_run [of init es] by (simp add: hostedInv_def init_def members_def)

paragraph \<open>Disjoint member sets along a run\<close>

lemma handleJoin_cases:
  "fst (handleJoin g now r n c) = g \<and> map_option roomId (userInfo g c) = Some r \<or>
   map_option roomId (userInfo g c) \<noteq> Some r \<and>
   (let g1 = g\<lparr>userInfo := (userInfo g)(c \<mapsto> \<lparr>roomId = r, userName = n, joinedAt = now\<rparr>)\<rparr>
    in if members g r = []
       then fst (handleJoin g now r n c) =
            fst (joinRoom (g1\<lparr>roomHosts := (roomHosts g1)(r \<mapsto> c)\<rparr>) c r n)
       else (\<exists>h. roomHosts g r = Some h \<and> h \<noteq> []) \<longrightarrow> fst (handleJoin g now r n c) = g1)"
  by (auto simp add: handleJoin_def Let_def members_def truthy_def split: option.splits)

lemma handleAdmit_cases:
  "fst (handleAdmit g u r c) = g \<or>
   roomHosts g r = Some c \<and> u \<in> sockets g \<and>
   (\<exists>d. userInfo g u = Some d \<and> fst (handleAdmit g u r c) = fst (joinRoom g u r (userName d)))"
  by (auto simp add: handleAdmit_def split_beta split: option.splits)

lemma joinRoom_fields [simp]:
  "roomHosts (fst (joinRoom g c r n)) = roomHosts g"
  "userInfo (fst (joinRoom g c r n)) = userInfo g"
  by (simp_all add: joinRoom_def Let_def)

lemma handleUserLeave_userInfo:
  "userInfo (fst (handleUserLeave g c r)) = (userInfo g)(c := None)"
  by (auto simp add: handleUserLeave_def Let_def split: option.splits list.splits)

lemma plainIds_cong:
  "plainIds g \<Longrightarrow> roomParticipants g' = roomParticipants g \<Longrightarrow> roomHosts g' = roomHosts g \<Longrightarrow>
   userInfo g' = userInfo g \<Longrightarrow> plainIds g'"
  by (simp add: plainIds_def members_def)

lemma plainIds_joinRoom:
  "plainIds g \<Longrightarrow> c \<noteq> [] \<Longrightarrow> plainIds (fst (joinRoom g c r n))"
  by (auto simp add: plainIds_def joinRoom_members setAdd_def)

lemma plainIds_handleJoin:
  assumes "plainIds g" and "hostedInv g" and "c \<noteq> []"
  shows "plainIds (fst (handleJoin g now r n c))"
proof -
  let ?g1 = "g\<lparr>userInfo := (userInfo g)(c \<mapsto> \<lparr>roomId = r, userName = n, joinedAt = now\<rparr>)\<rparr>"
  let ?g2 = "?g1\<lparr>roomHosts := (roomHosts ?g1)(r \<mapsto> c)\<rparr>"
  have p1: "plainIds ?g1" and p2: "plainIds ?g2"
    using assms(1,3) by (auto simp add: plainIds_def members_def)
  have host: "\<exists>h. roomHosts g r = Some h \<and> h \<noteq> []" if "members g r \<noteq> []"
    using that assms(1,2) by (auto simp add: plainIds_def hostedInv_def)
  from handleJoin_cases [of g now r n c] host
  have "fst (handleJoin g now r n c) \<in> {g, ?g1, fst (joinRoom ?g2 c r n)}"
    by (auto simp add: Let_def split: if_splits)
  with assms(1) p1 plainIds_joinRoom [OF p2 assms(3)] show ?thesis
    by auto
qed

lemma plainIds_handleAdmit: "plainIds g \<Longrightarrow> plainIds (fst (handleAdmit g u r c))"
proof -
  assume p: "plainIds g"
  from handleAdmit_cases [of g u r c] show ?thesis
  proof (elim disjE conjE exE)
    assume "fst (handleAdmit g u r c) = g"
    with p show ?thesis by simp
  next
    fix d
    assume d: "userInfo g u = Some d"
      and e: "fst (handleAdmit g u r c) = fst (joinRoom g u r (userName d))"
    from p d have "u \<noteq> []"
      by (auto simp add: plainIds_def)
    with p show ?thesis
      unfolding e by (rule plainIds_joinRoom)
  qed
qed

lemma plainIds_handleUserLeave: "plainIds g \<Longrightarrow> plainIds (fst (handleUserLeave g c r))"
  unfolding plainIds_def handleUserLeave_members handleUserLeave_hosts handleUserLeave_userInfo
proof (intro conjI allI impI)
  fix r' h
  assume p: "(\<forall>r h. roomHosts g r = Some h \<longrightarrow> h \<noteq> []) \<and> (\<forall>r. [] \<notin> set (members g r)) \<and>
             userInfo g [] = None"
    and h: "(if r' = r \<and> roomHosts g r = Some c
             then case removeAll c (members g r) of [] \<Rightarrow> None | n # x \<Rightarrow> Some n
             else roomHosts g r') = Some h"
  show "h \<noteq> []"
  proof (cases "r' = r \<and> roomHosts g r = Some c")
    case True
    with h obtain ns where "removeAll c (members g r) = h # ns"
      by (auto split: list.splits)
    then have "h \<in> set (removeAll c (members g r))"
      by simp
    then have "h \<in> set (members g r)"
      by simp
    with p show ?thesis by auto
  next
    case False
    with h have "roomHosts g r' = Some h"
      by (simp split: if_splits)
    with p show ?thesis by blast
  qed
next
  fix r'
  assume "(\<forall>r h. roomHosts g r = Some h \<longrightarrow> h \<noteq> []) \<and> (\<forall>r. [] \<notin> set (members g r)) \<and>
          userInfo g [] = None"
  then show "[] \<notin> set (if r' = r then removeAll c (members g r) else members g r')"
    by auto
next
  assume "(\<forall>r h. roomHosts g r = Some h \<longrightarrow> h \<noteq> []) \<and> (\<forall>r. [] \<notin> set (members g r)) \<and>
          userInfo g [] = None"
  then show "((userInfo g)(c := None)) [] = None"
    by simp
qed

lemma plainIds_fire: "plainIds g \<Longrightarrow> plainIds (fireTimer g h)"
  unfolding plainIds_def fireTimer_members
  by (auto simp add: fireTimer_def cleanupCallback_def split: option.splits if_splits)

lemma plainIds_step:
  assumes "plainIds g" and "hostedInv g" and "oneRoomAtATime g i"
  shows "plainIds (fst (step g i))"
proof (cases i)
  case (Connect c ip now)
  from assms(1) show ?thesis unfolding Connect
    by (auto simp add: handleConnection_def Let_def elim!: plainIds_cong)
next
  case (JoinRoom c r n now)
  with assms show ?thesis by (simp add: plainIds_handleJoin)
next
  case (AdmitUser c u r)
  with assms(1) show ?thesis by (simp add: plainIds_handleAdmit)
next
  case (RejectUser c u r)
  from assms(1) show ?thesis unfolding RejectUser
    by (auto simp add: handleReject_def plainIds_def members_def)
next
  case (LeaveRoom c r)
  with assms(1) show ?thesis by (simp add: handleLeave_def plainIds_handleUserLeave)
next
  case (Disconnect c now)
  let ?d = "g\<lparr>sockets := sockets g - {c}, rooms := (\<lambda>r. rooms g r - {c})\<rparr>"
  from assms(1) have "plainIds ?d"
    by (rule plainIds_cong) simp_all
  then have "plainIds (case userInfo ?d c of
      Some d \<Rightarrow> fst (handleUserLeave ?d c (roomId d)) | None \<Rightarrow> ?d)"
    by (simp add: plainIds_handleUserLeave split: option.splits)
  then show ?thesis unfolding Disconnect step.simps handleDisconnect_state
    by (rule plainIds_cong) simp_all
next
  case (TimerFires h)
  with assms(1) show ?thesis by (simp add: plainIds_fire)
qed

lemma singleRoom_handleJoin:
  assumes "singleRoom g" and "plainIds g" and "hostedInv g"
    and "oneRoomAtATime g (JoinRoom c r n now)"
  shows "singleRoom (fst (handleJoin g now r n c))"
proof -
  let ?g1 = "g\<lparr>userInfo := (userInfo g)(c \<mapsto> \<lparr>roomId = r, userName = n, joinedAt = now\<rparr>)\<rparr>"
  have same: "singleRoom g'" if "roomParticipants g' = roomParticipants g" for g'
    using assms(1) that by (simp add: singleRoom_def members_def)
  show ?thesis
  proof (cases "map_option roomId (userInfo g c) = Some r")
    case True
    with handleJoin_cases [of g now r n c] have "fst (handleJoin g now r n c) = g"
      by auto
    with assms(1) show ?thesis by simp
  next
    case new: False
    show ?thesis
    proof (cases "members g r = []")
      case True
      with new assms(4) have "memberNowhereBut g c r"
        by simp
      with assms(1) show ?thesis
        by (rule singleRoom_add) (rule handleJoin_members)
    next
      case False
      then have "\<exists>h. roomHosts g r = Some h \<and> h \<noteq> []"
        using assms(2,3) by (auto simp add: plainIds_def hostedInv_def)
      with handleJoin_cases [of g now r n c] new False
      have "fst (handleJoin g now r n c) = ?g1"
        by (auto simp add: Let_def)
      then show ?thesis
        by (simp add: same)
    qed
  qed
qed

lemma singleRoom_handleAdmit:
  assumes "singleRoom g" and "oneRoomAtATime g (AdmitUser c u r)"
  shows "singleRoom (fst (handleAdmit g u r c))"
proof (cases "fst (handleAdmit g u r c) = g")
  case True
  with assms(1) show ?thesis by simp
next
  case False
  with handleAdmit_cases [of g u r c] assms(2) have "memberNowhereBut g u r"
    by auto
  with assms(1) show ?thesis
    by (rule singleRoom_add) (rule handleAdmit_members)
qed

lemma singleRoom_step:
  assumes "singleRoom g" and "plainIds g" and "hostedInv g" and "oneRoomAtATime g i"
  shows "singleRoom (fst (step g i))"
proof (cases i)
  case (Connect c ip now)
  show ?thesis unfolding Connect
    by (rule singleRoom_shrink [OF assms(1)])
      (simp add: handleConnection_def Let_def members_def)
next
  case (JoinRoom c r n now)
  with assms show ?thesis by (simp add: singleRoom_handleJoin)
next
  case (AdmitUser c u r)
  with assms show ?thesis by (simp add: singleRoom_handleAdmit)
next
  case (RejectUser c u r)
  show ?thesis unfolding RejectUser
    by (rule singleRoom_shrink [OF assms(1)]) (simp add: handleReject_def members_def)
next
  case (LeaveRoom c r)
  show ?thesis unfolding LeaveRoom
    by (rule singleRoom_shrink [OF assms(1)])
      (simp add: handleLeave_def handleUserLeave_members)
next
  case (Disconnect c now)
  have "\<And>r. set (members (fst (step g (Disconnect c now))) r) \<subseteq> set (members g r)"
    using handleDisconnect_members
      [of "g\<lparr>sockets := sockets g - {c}, rooms := (\<lambda>r. rooms g r - {c})\<rparr>" now c]
    by (simp add: members_def)
  then show ?thesis unfolding Disconnect
    by (rule singleRoom_shrink [OF assms(1)])
next
  case (TimerFires h)
  show ?thesis unfolding TimerFires
    by (rule singleRoom_shrink [OF assms(1)]) (simp add: fireTimer_members)
qed

lemma singleRoom_run:
  "singleRoom g \<Longrightarrow> plainIds g \<Longrightarrow> hostedInv g \<Longrightarrow> disciplined g is \<Longrightarrow> singleRoom (run g is)"
  by (induction "is" arbitrary: g) (simp_all add: singleRoom_step plainIds_step hostedInv_step)

lemma plainIds_init: "plainIds init"
  by (simp add: plainIds_def members_def init_def)

lemma hostedInv_init: "hostedInv init"
  by (simp add: hostedInv_def members_def init_def)

paragraph \<open>Armed timeouts\<close>





lemma joinRoom_timer_fields [simp]:
  "timers (fst (joinRoom g c r n)) = timers g"
  "cleanupTimers (fst (joinRoom g c r n)) = cleanupTimers g"
  "nextTimer (fst (joinRoom g c r n)) = nextTimer g"
  by (simp_all add: joinRoom_def Let_def)

lemma handleJoin_timer_fields [simp]:
  "timers (fst (handleJoin g now r n c)) = timers g"
  "cleanupTimers (fst (handleJoin g now r n c)) = cleanupTimers g"
  "nextTimer (fst (handleJoin g now r n c)) = nextTimer g"
  by (simp_all add: handleJoin_def Let_def split: option.splits)

lemma handleAdmit_timer_fields [simp]:
  "timers (fst (handleAdmit g u r c)) = timers g"
  "cleanupTimers (fst (handleAdmit g u r c)) = cleanupTimers g"
  "nextTimer (fst (handleAdmit g u r c)) = nextTimer g"
  by (simp_all add: handleAdmit_def split_beta split: option.splits)

lemma handleReject_timer_fields [simp]:
  "timers (fst (handleReject g u r c)) = timers g"
  "cleanupTimers (fst (handleReject g u r c)) = cleanupTimers g"
  "nextTimer (fst (handleReject g u r c)) = nextTimer g"
  by (simp_all add: handleReject_def)






paragraph \<open>The example runs\<close>


lemma pair_fields:
  "userInfo (run init pair_trace) =
     [''A'' \<mapsto> \<lparr>roomId = ''R'', userName = ''alice'', joinedAt = 2\<rparr>,
      ''B'' \<mapsto> \<lparr>roomId = ''R'', userName = ''bob'', joinedAt = 3\<rparr>]"
  "roomHosts (run init pair_trace) = [''R'' \<mapsto> ''A'']"
  "roomParticipants (run init pair_trace) = [''R'' \<mapsto> [''A'', ''B'']]"
  "sockets (run init pair_trace) = {''A'', ''B''}"
proof -
  have "run init pair_trace =
      fst (handleAdmit (fst (handleJoin host_alone 3 ''R'' ''bob'' ''B'')) ''B'' ''R'' ''A'')"
    by (simp add: pair_trace_def host_alone_def lobby_def)
  then show
    "userInfo (run init pair_trace) =
       [''A'' \<mapsto> \<lparr>roomId = ''R'', userName = ''alice'', joinedAt = 2\<rparr>,
        ''B'' \<mapsto> \<lparr>roomId = ''R'', userName = ''bob'', joinedAt = 3\<rparr>]"
    "roomHosts (run init pair_trace) = [''R'' \<mapsto> ''A'']"
    "roomParticipants (run init pair_trace) = [''R'' \<mapsto> [''A'', ''B'']]"
    "sockets (run init pair_trace) = {''A'', ''B''}"
    by (simp_all add: handleJoin_def handleAdmit_def joinRoom_def setAdd_def truthy_def
        Let_def host_alone_fields)
qed

lemma busy_host_fields:
  "userInfo (run init busy_host_trace) =
     [''A'' \<mapsto> \<lparr>roomId = ''S'', userName = ''alice'', joinedAt = 6\<rparr>,
      ''B'' \<mapsto> \<lparr>roomId = ''R'', userName = ''bob'', joinedAt = 3\<rparr>,
      ''C'' \<mapsto> \<lparr>roomId = ''S'', userName = ''carol'', joinedAt = 5\<rparr>]"
  "roomHosts (run init busy_host_trace) = [''R'' \<mapsto> ''A'', ''S'' \<mapsto> ''C'']"
  "roomParticipants (run init busy_host_trace) = [''R'' \<mapsto> [''A'', ''B''], ''S'' \<mapsto> [''C'']]"
  by (auto simp add: busy_host_trace_def run_append pair_fields handleConnection_def
      handleJoin_def joinRoom_def setAdd_def truthy_def firstValue_def Let_def)

subsection \<open>Rate limiting\<close>

text \<open>
  C2 (the 51st attempt within one minute is denied): the source counts the attempts
  already recorded in the trailing window and denies when that count is greater than 50.
  At the 51st attempt 50 are recorded, so it is allowed and recorded; the first attempt
  denied is the 52nd. Here 52 attempts arrive from one origin at the same instant.
\<close>

theorem rate_limit_allows_51st:
  "connectAll init ''203.0.113.9'' (replicate 52 0) = replicate 51 Allow @ [Deny]"
  by code_simp

subsection \<open>Admission\<close>

text \<open>
  A presence entry that names \<open>R\<close> can outlive the room's members: \<open>A\<close> asked for \<open>R\<close>
  while \<open>B\<close> hosted it, and \<open>B\<close> left. \<open>R\<close> has no members, yet \<open>A\<close>'s join-room for \<open>R\<close> is
  dropped as a repeated join, and \<open>A\<close> becomes neither member nor host.
\<close>

theorem join_dropped_for_stale_presence:
  "members (run init stale_trace) ''R'' = [] \<and>
   handleJoin (run init stale_trace) 9 ''R'' ''alice'' ''A'' = (run init stale_trace, []) \<and>
   ''A'' \<notin> set (members (fst (handleJoin (run init stale_trace) 9 ''R'' ''alice'' ''A'')) ''R'') \<and>
   roomHosts (fst (handleJoin (run init stale_trace) 9 ''R'' ''alice'' ''A'')) ''R'' = None"
proof -
  have f: "userInfo (run init stale_trace) ''A'' =
             Some \<lparr>roomId = ''R'', userName = ''alice'', joinedAt = 3\<rparr>"
    "roomParticipants (run init stale_trace) ''R'' = None"
    "roomHosts (run init stale_trace) ''R'' = None"
    by (simp_all add: stale_trace_def init_def handleConnection_def handleJoin_def joinRoom_def
        handleLeave_def handleUserLeave_def setAdd_def setDelete_def truthy_def Let_def)
  have j: "handleJoin (run init stale_trace) 9 ''R'' ''alice'' ''A'' = (run init stale_trace, [])"
    by (simp add: handleJoin_def f)
  show ?thesis
    unfolding j by (simp add: members_def f)
qed

text \<open>
  C3 (round trip), as amended: \<open>R\<close> has no members, \<open>A\<close> and \<open>B\<close> are different sessions
  neither of which has a presence entry that names \<open>R\<close>, the id of \<open>A\<close> is not the empty
  string (a socket id never is), and \<open>B\<close> is connected. After \<open>A\<close>'s join-room, \<open>A\<close> is
  the only member and the host. \<open>B\<close>'s join-room adds no member, sends \<open>B\<close>
  waiting-for-approval and sends \<open>A\<close> the join-request with \<open>B\<close>'s id and name. \<open>A\<close>'s
  admit-user makes the member set \<open>[A, B]\<close>, sends \<open>B\<close> one existing-users batch holding
  exactly \<open>A\<close> with its name, broadcasts user-joined for \<open>B\<close> to the room without \<open>B\<close> (so
  to \<open>A\<close> and every prior member), and sends \<open>B\<close> join-approved.
\<close>

theorem join_admit_round_trip:
  fixes g :: gateway and ta tb :: int and R nA nB A B :: string
  defines "g1 \<equiv> fst (handleJoin g ta R nA A)"
  defines "g2 \<equiv> fst (handleJoin g1 tb R nB B)"
  defines "g3 \<equiv> fst (handleAdmit g2 B R A)"
  assumes "members g R = []" and "A \<noteq> B" and "A \<noteq> []" and "B \<in> sockets g"
    and "\<forall>e. userInfo g A = Some e \<longrightarrow> roomId e \<noteq> R"
    and "\<forall>e. userInfo g B = Some e \<longrightarrow> roomId e \<noteq> R"
  shows "members g1 R = [A] \<and> roomHosts g1 R = Some A \<and>
         members g2 R = [A] \<and>
         snd (handleJoin g1 tb R nB B) = [Emit B WaitingForApproval, ServerTo A (JoinRequest B nB)] \<and>
         members g3 R = [A, B] \<and>
         snd (handleAdmit g2 B R A) =
           [Emit B (ExistingUsers [(A, nA)]), ClientTo B R (UserJoined B nB), Emit B JoinApproved] \<and>
         A \<in> receivers g3 (ClientTo B R (UserJoined B nB)) \<and>
         B \<notin> receivers g3 (ClientTo B R (UserJoined B nB)) \<and>
         set (members g2 R) - {B} \<subseteq> receivers g3 (ClientTo B R (UserJoined B nB))"
proof -
  have s1: "g1 = g\<lparr>userInfo := (userInfo g)(A \<mapsto> \<lparr>roomId = R, userName = nA, joinedAt = ta\<rparr>),
                   roomHosts := (roomHosts g)(R \<mapsto> A),
                   rooms := (rooms g)(R := insert A (rooms g R)),
                   roomParticipants := (roomParticipants g)(R \<mapsto> [A])\<rparr>"
    using assms(4,8)
    by (auto simp add: g1_def handleJoin_def joinRoom_def setAdd_def Let_def members_def
        split: option.splits)
  have j2: "handleJoin g1 tb R nB B =
      (g1\<lparr>userInfo := (userInfo g1)(B \<mapsto> \<lparr>roomId = R, userName = nB, joinedAt = tb\<rparr>)\<rparr>,
       [Emit B WaitingForApproval, ServerTo A (JoinRequest B nB)])"
    using assms(5,6,9)
    by (auto simp add: s1 handleJoin_def Let_def truthy_def split: option.splits)
  have s2: "g2 = g1\<lparr>userInfo := (userInfo g1)(B \<mapsto> \<lparr>roomId = R, userName = nB, joinedAt = tb\<rparr>)\<rparr>"
    by (simp add: g2_def j2)
  have a3: "handleAdmit g2 B R A =
      (g2\<lparr>rooms := (rooms g2)(R := insert B (rooms g2 R)),
          roomParticipants := (roomParticipants g2)(R \<mapsto> [A, B])\<rparr>,
       [Emit B (ExistingUsers [(A, nA)]), ClientTo B R (UserJoined B nB), Emit B JoinApproved])"
    using assms(5,7)
    by (simp add: s2 s1 handleAdmit_def joinRoom_def setAdd_def Let_def)
  have s3: "g3 = g2\<lparr>rooms := (rooms g2)(R := insert B (rooms g2 R)),
                   roomParticipants := (roomParticipants g2)(R \<mapsto> [A, B])\<rparr>"
    by (simp add: g3_def a3)
  have m1: "members g1 R = [A]" and h1: "roomHosts g1 R = Some A"
    by (simp_all add: s1 members_def)
  have m2: "members g2 R = [A]"
    by (simp add: s2 s1 members_def)
  have o2: "snd (handleJoin g1 tb R nB B) = [Emit B WaitingForApproval, ServerTo A (JoinRequest B nB)]"
    by (simp add: j2)
  have m3: "members g3 R = [A, B]"
    by (simp add: s3 members_def)
  have o3: "snd (handleAdmit g2 B R A) =
      [Emit B (ExistingUsers [(A, nA)]), ClientTo B R (UserJoined B nB), Emit B JoinApproved]"
    by (simp add: a3)
  have r3: "receivers g3 (ClientTo B R (UserJoined B nB)) = insert A (rooms g R) - {B}"
    using assms(5) by (auto simp add: s3 s2 s1)
  have ra: "A \<in> receivers g3 (ClientTo B R (UserJoined B nB))"
    and rb: "B \<notin> receivers g3 (ClientTo B R (UserJoined B nB))"
    and rs: "set (members g2 R) - {B} \<subseteq> receivers g3 (ClientTo B R (UserJoined B nB))"
    unfolding r3 m2 using assms(5) by auto
  from m1 h1 m2 o2 m3 o3 ra rb rs show ?thesis
    by (intro conjI)
qed

theorem join_admit_round_trip_witness:
  "members lobby ''R'' = [] \<and> ''B'' \<in> sockets lobby \<and>
   userInfo lobby ''A'' = None \<and> userInfo lobby ''B'' = None \<and>
   members (fst (handleJoin lobby 2 ''R'' ''alice'' ''A'')) ''R'' = [''A''] \<and>
   roomHosts (fst (handleJoin lobby 2 ''R'' ''alice'' ''A'')) ''R'' = Some ''A'' \<and>
   snd (handleJoin (fst (handleJoin lobby 2 ''R'' ''alice'' ''A'')) 3 ''R'' ''bob'' ''B'') =
     [Emit ''B'' WaitingForApproval, ServerTo ''A'' (JoinRequest ''B'' ''bob'')] \<and>
   members (fst (handleAdmit
       (fst (handleJoin (fst (handleJoin lobby 2 ''R'' ''alice'' ''A'')) 3 ''R'' ''bob'' ''B''))
       ''B'' ''R'' ''A'')) ''R'' = [''A'', ''B''] \<and>
   snd (handleAdmit
       (fst (handleJoin (fst (handleJoin lobby 2 ''R'' ''alice'' ''A'')) 3 ''R'' ''bob'' ''B''))
       ''B'' ''R'' ''A'') =
     [Emit ''B'' (ExistingUsers [(''A'', ''alice'')]), ClientTo ''B'' ''R'' (UserJoined ''B'' ''bob''),
      Emit ''B'' JoinApproved]"
  using join_admit_round_trip [where g = lobby and R = "''R''" and A = "''A''" and B = "''B''"
      and ta = 2 and tb = 3 and nA = "''alice''" and nB = "''bob''"]
  by (simp add: lobby_fields members_def)

text \<open>
  C4 (unauthorised admit or reject): when room \<open>R\<close> has the recorded host \<open>h\<close>, an
  admit-user or reject-user for \<open>R\<close> from any other session \<open>c\<close> leaves the whole state
  as it was, the presence table, the member sets and the host map included, and emits
  nothing.
\<close>

theorem unauthorized_admit_reject_dropped:
  assumes "roomHosts g R = Some h" and "c \<noteq> h"
  shows "handleAdmit g u R c = (g, []) \<and> handleReject g u R c = (g, [])"
  using assms by (simp add: handleAdmit_def handleReject_def)

theorem unauthorized_admit_reject_dropped_witness:
  "roomHosts host_alone ''R'' = Some ''A'' \<and> ''B'' \<noteq> ''A'' \<and>
   handleAdmit host_alone ''B'' ''R'' ''B'' = (host_alone, []) \<and>
   handleReject host_alone ''A'' ''R'' ''B'' = (host_alone, [])"
  using unauthorized_admit_reject_dropped [of host_alone "''R''" "''A''" "''B''"]
  by (simp add: host_alone_fields)

text \<open>
  C5 (repeated join): a join-room for \<open>R\<close> from a session whose presence entry already
  names \<open>R\<close> changes nothing, so the entry keeps its joinedAt and stays the only one of
  the session, and emits nothing.
\<close>

theorem repeated_join_is_noop:
  assumes "userInfo g c = Some e" and "roomId e = R"
  shows "handleJoin g now R n c = (g, [])"
  using assms by (simp add: handleJoin_def)

theorem repeated_join_is_noop_witness:
  "userInfo host_alone ''A'' = Some \<lparr>roomId = ''R'', userName = ''alice'', joinedAt = 2\<rparr> \<and>
   handleJoin host_alone 9 ''R'' ''alice'' ''A'' = (host_alone, [])"
  using repeated_join_is_noop [of host_alone "''A''"
      "\<lparr>roomId = ''R'', userName = ''alice'', joinedAt = 2\<rparr>" "''R''" 9 "''alice''"]
  by (simp add: host_alone_fields)

text \<open>
  C8 (room with members and no recorded host): a join-room from a session \<open>a\<close> with no
  presence entry for \<open>R\<close> is answered with waiting-for-approval and a join-request sent
  to the first member \<open>m\<close>; the room still has no recorded host afterwards, and every
  admit-user for \<open>R\<close>, from \<open>m\<close> or from anyone else, is dropped without a change of state
  or a message, before and after that join. No run from the empty gateway reaches such a
  state (\<open>members_have_host\<close>); the statement holds in every state, reached or not.
\<close>

theorem hostless_room_never_admits:
  assumes "roomHosts g R = None" and "roomParticipants g R = Some (m # ms)" and "m \<noteq> []"
    and "\<forall>e. userInfo g a = Some e \<longrightarrow> roomId e \<noteq> R"
  shows "snd (handleJoin g now R n a) = [Emit a WaitingForApproval, ServerTo m (JoinRequest a n)] \<and>
         roomHosts (fst (handleJoin g now R n a)) R = None \<and>
         members (fst (handleJoin g now R n a)) R = m # ms \<and>
         (\<forall>u c. handleAdmit (fst (handleJoin g now R n a)) u R c = (fst (handleJoin g now R n a), [])) \<and>
         (\<forall>u c. handleAdmit g u R c = (g, []))"
  using assms
  by (auto simp add: handleJoin_def handleAdmit_def Let_def truthy_def firstValue_def members_def
      split: option.splits)

theorem hostless_room_never_admits_witness:
  "roomHosts hostless ''R'' = None \<and> roomParticipants hostless ''R'' = Some [''M''] \<and>
   userInfo hostless ''P'' = None \<and>
   snd (handleJoin hostless 7 ''R'' ''pat'' ''P'') =
     [Emit ''P'' WaitingForApproval, ServerTo ''M'' (JoinRequest ''P'' ''pat'')] \<and>
   handleAdmit (fst (handleJoin hostless 7 ''R'' ''pat'' ''P'')) ''P'' ''R'' ''M'' =
     (fst (handleJoin hostless 7 ''R'' ''pat'' ''P''), [])"
  using hostless_room_never_admits [of hostless "''R''" "''M''" "[]" "''P''" 7 "''pat''"]
  by (simp add: hostless_def init_def)

text \<open>
  C9 (reject-user checks only the host): when \<open>h\<close> is the recorded host of \<open>R\<close> and \<open>u\<close>
  is any connected session, reject-user for \<open>u\<close> and \<open>R\<close> from \<open>h\<close> deletes \<open>u\<close>'s presence
  entry and sends \<open>u\<close> join-rejected; nothing relates \<open>u\<close> to \<open>R\<close>, and no member set
  changes. In the example \<open>u\<close> is the host and member of another room \<open>S\<close> and stays in
  its member set.
\<close>

theorem reject_deletes_any_presence:
  assumes "roomHosts g R = Some h" and "u \<in> sockets g"
  shows "handleReject g u R h =
         (g\<lparr>userInfo := (userInfo g)(u := None)\<rparr>, [Emit u JoinRejected])"
  using assms by (simp add: handleReject_def)

theorem reject_deletes_any_presence_witness:
  "roomHosts two_hosts ''R'' = Some ''A'' \<and> ''B'' \<in> sockets two_hosts \<and>
   map_option roomId (userInfo two_hosts ''B'') = Some ''S'' \<and>
   members two_hosts ''S'' = [''B''] \<and>
   snd (handleReject two_hosts ''B'' ''R'' ''A'') = [Emit ''B'' JoinRejected] \<and>
   userInfo (fst (handleReject two_hosts ''B'' ''R'' ''A'')) ''B'' = None \<and>
   members (fst (handleReject two_hosts ''B'' ''R'' ''A'')) ''S'' = [''B'']"
  using reject_deletes_any_presence [of two_hosts "''R''" "''A''" "''B''"]
  by (simp add: two_hosts_fields members_def)

subsection \<open>Departure\<close>

text \<open>
  C10 (leave-room is not validated): a leave-room for \<open>R\<close> from a session \<open>c\<close> that has
  no presence entry and is not a member of \<open>R\<close> still broadcasts user-left with \<open>c\<close>'s id
  and an undefined name to the sessions of \<open>R\<close>'s group other than \<open>c\<close>, removes no
  session from any member set, leaves the presence table as it was, and arms a cleanup
  timeout for \<open>R\<close>.
\<close>

theorem leave_of_stranger_broadcasts:
  assumes "userInfo g c = None" and "c \<notin> set (members g R)"
  shows "ClientTo c R (UserLeft c None) \<in> set (snd (handleLeave g R c)) \<and>
         receivers (fst (handleLeave g R c)) (ClientTo c R (UserLeft c None)) = rooms g R - {c} \<and>
         (\<forall>r. members (fst (handleLeave g R c)) r = members g r) \<and>
         userInfo (fst (handleLeave g R c)) = userInfo g \<and>
         cleanupTimers (fst (handleLeave g R c)) R = Some (nextTimer g) \<and>
         timers (fst (handleLeave g R c)) (nextTimer g) = Some R"
  using assms
  by (auto simp add: handleLeave_def handleUserLeave_def Let_def members_def setDelete_def
      scheduleRoomCleanup_armed
      split: option.splits list.splits)

theorem leave_of_stranger_broadcasts_witness:
  "userInfo host_alone ''B'' = None \<and> ''B'' \<notin> set (members host_alone ''R'') \<and>
   ClientTo ''B'' ''R'' (UserLeft ''B'' None) \<in> set (snd (handleLeave host_alone ''R'' ''B'')) \<and>
   receivers (fst (handleLeave host_alone ''R'' ''B'')) (ClientTo ''B'' ''R'' (UserLeft ''B'' None))
     = {''A''} \<and>
   members (fst (handleLeave host_alone ''R'' ''B'')) ''R'' = [''A''] \<and>
   timers (fst (handleLeave host_alone ''R'' ''B'')) 0 = Some ''R''"
  using leave_of_stranger_broadcasts [of host_alone "''B''" "''R''"]
  by (simp add: host_alone_fields members_def)

subsection \<open>Membership\<close>

text \<open>
  The member sets are not kept disjoint by the handlers themselves: a session that is a
  member of \<open>R\<close> and asks for an empty room \<open>S\<close> is added to \<open>S\<close> and stays in \<open>R\<close>.
\<close>

theorem session_in_two_rooms:
  "''A'' \<in> set (members (run init two_rooms_trace) ''R'') \<and>
   ''A'' \<in> set (members (run init two_rooms_trace) ''S'') \<and> ''R'' \<noteq> ''S''"
  by (simp add: two_rooms_trace_def init_def handleConnection_def handleJoin_def joinRoom_def
      setAdd_def members_def Let_def)

text \<open>
  C1 (a session is in at most one room's member set), as amended: take any run from the
  empty gateway of connects, join-room, admit-user, reject-user, leave-room, disconnects
  and firing timeouts in which the sessions that send join-room have non-empty ids, no
  join-room for a room without members comes from a member of another room (unless the
  sender's presence entry names that room already, when the message is dropped), and no
  admit-user that takes effect names a member of another room. In the state it reaches
  no session is in the member sets of two different rooms. A member of one room may ask
  for a room that has members: that adds it to no member set.
\<close>

theorem one_room_per_session:
  assumes "disciplined init es"
  shows "\<forall>c r1 r2. c \<in> set (members (run init es) r1) \<and> c \<in> set (members (run init es) r2)
           \<longrightarrow> r1 = r2"
  using singleRoom_run [OF singleRoom_init plainIds_init hostedInv_init assms]
  by (simp add: singleRoom_def)

theorem one_room_per_session_witness:
  "disciplined init busy_host_trace \<and>
   ''A'' \<in> set (members (run init busy_host_trace) ''R'') \<and>
   map_option roomId (userInfo (run init busy_host_trace) ''A'') = Some ''S'' \<and>
   ''A'' \<notin> set (members (run init busy_host_trace) ''S'')"
proof -
  have e: "disciplined init pair_trace"
    by (simp add: pair_trace_def init_def handleConnection_def handleJoin_def joinRoom_def
        setAdd_def truthy_def memberNowhereBut_def members_def Let_def)
  have j: "disciplined (run init pair_trace)
      [Connect ''C'' ''10.0.0.3'' 4, JoinRoom ''C'' ''S'' ''carol'' 5, JoinRoom ''A'' ''S'' ''alice'' 6]"
    by (simp add: handleConnection_def handleJoin_def joinRoom_def setAdd_def truthy_def
        memberNowhereBut_def members_def Let_def pair_fields)
  have d: "disciplined init busy_host_trace"
    unfolding busy_host_trace_def disciplined_append using e j by simp
  have s: "''A'' \<in> set (members (run init busy_host_trace) ''R'')"
    and u: "map_option roomId (userInfo (run init busy_host_trace) ''A'') = Some ''S''"
    by (simp_all add: members_def busy_host_fields)
  from one_room_per_session [OF d] s have "''A'' \<notin> set (members (run init busy_host_trace) ''S'')"
    by fastforce
  with d s u show ?thesis by simp
qed

subsection \<open>Host handover\<close>




subsection \<open>Cleanup of empty rooms\<close>



end
